theory Spec2Isabelle
  imports
    Complex_Main
    "HOL-Library.Multiset"
    "HOL-Library.Sublist"
    "HOL-Library.List_Lexorder"
    "HOL-Library.Char_ord"
begin

section \<open>Data model\<close>

text \<open>
  The order table of \<^verbatim>\<open>sales_data.csv\<close>. A row of the generator is the dictionary appended
  to \<^verbatim>\<open>records\<close> in \<^verbatim>\<open>generate_data.py\<close> (eighteen columns, the date as text); a row of the
  dashboard is the same row after \<^verbatim>\<open>load_data\<close> in \<^verbatim>\<open>app.py\<close>: the date parsed to a timestamp
  and the three derived columns added.

  Numbers: Python's \<^verbatim>\<open>float\<close> columns are rationals here (the decimal amounts the file holds);
  the rounding error of binary floating point is not part of the model. A float that pandas
  leaves undefined (\<^verbatim>\<open>NaN\<close>) is \<open>None\<close>. A calendar date is its proleptic Gregorian ordinal, as
  Python's \<^verbatim>\<open>datetime.toordinal\<close> numbers it (day 1 is 0001-01-01, a Monday).
\<close>

type_synonym datetime = int

type_synonym float64 = "rat option"

record 'd sales_row =
  OrderID :: string
  Date :: 'd
  Month :: string
  Quarter :: string
  Year :: int
  Category :: string
  Product :: string
  UnitPrice :: rat
  Quantity :: int
  Discount :: int
  Revenue :: rat
  Profit :: rat
  Region :: string
  City :: string
  Channel :: string
  PaymentMethod :: string
  Rating :: rat
  Returned :: int

record 'd order = "'d sales_row" +
  MonthNum :: string
  DayOfWeek :: string
  WeekNum :: int

type_synonym dataframe = "datetime order list"

section \<open>Calendar dates and text\<close>

text \<open>
  Python's \<^verbatim>\<open>datetime\<close> arithmetic on proleptic Gregorian ordinals: \<^verbatim>\<open>datetime(y, m, d)\<close>
  is \<open>ymd2ord y m d\<close>, adding \<^verbatim>\<open>timedelta(days=k)\<close> adds \<open>k\<close>, the difference of two
  dates in days is the difference of their ordinals, and \<open>ord2ymd\<close> reads year, month and
  day back.
\<close>

definition is_leap :: "int \<Rightarrow> bool" where
  "is_leap y = (y mod 4 = 0 \<and> (y mod 100 \<noteq> 0 \<or> y mod 400 = 0))"

definition DAYS_IN_MONTH :: "int list" where
  "DAYS_IN_MONTH = [31, 28, 31, 30, 31, 30, 31, 31, 30, 31, 30, 31]"

definition days_before_year :: "int \<Rightarrow> int" where
  "days_before_year y = (let y1 = y - 1 in y1 * 365 + y1 div 4 - y1 div 100 + y1 div 400)"

definition days_before_month :: "int \<Rightarrow> nat \<Rightarrow> int" where
  "days_before_month y m =
     sum_list (take (m - 1) DAYS_IN_MONTH) + (if 2 < m \<and> is_leap y then 1 else 0)"

definition ymd2ord :: "int \<Rightarrow> nat \<Rightarrow> nat \<Rightarrow> datetime" where
  "ymd2ord y m d = days_before_year y + days_before_month y m + int d"

definition ord2ymd :: "datetime \<Rightarrow> int \<times> nat \<times> nat" where
  "ord2ymd n0 =
     (let n = n0 - 1;
          n400 = n div 146097; n = n mod 146097;
          n100 = n div 36524; n = n mod 36524;
          n4 = n div 1461; n = n mod 1461;
          n1 = n div 365; n = n mod 365;
          y = n400 * 400 + 1 + n100 * 100 + n4 * 4 + n1
      in if n1 = 4 \<or> n100 = 4 then (y - 1, 12, 31)
         else
           let leapyear = (n1 = 3 \<and> (n4 \<noteq> 24 \<or> n100 = 3));
               m = nat ((n + 50) div 32);
               preceding = sum_list (take (m - 1) DAYS_IN_MONTH)
                           + (if 2 < m \<and> leapyear then 1 else 0)
           in if n < preceding
              then (y, m - 1,
                    nat (n - (preceding - (DAYS_IN_MONTH ! (m - 2)
                                           + (if m - 1 = 2 \<and> leapyear then 1 else 0))) + 1))
              else (y, m, nat (n - preceding + 1)))"

definition year_of :: "datetime \<Rightarrow> int" where
  "year_of d = fst (ord2ymd d)"

definition month_of :: "datetime \<Rightarrow> nat" where
  "month_of d = fst (snd (ord2ymd d))"

definition day_of :: "datetime \<Rightarrow> nat" where
  "day_of d = snd (snd (ord2ymd d))"

text \<open>Decimal text of integers: \<^verbatim>\<open>str(n)\<close> and the \<^verbatim>\<open>{n}\<close> of an f-string.\<close>

definition digit_char :: "nat \<Rightarrow> char" where
  "digit_char d = ''0123456789'' ! d"

fun str_nat :: "nat \<Rightarrow> string" where
  "str_nat n = (if n < 10 then [digit_char n] else str_nat (n div 10) @ [digit_char (n mod 10)])"

declare str_nat.simps [simp del]

definition str_int :: "int \<Rightarrow> string" where
  "str_int i = (if i < 0 then CHR ''-'' # str_nat (nat (- i)) else str_nat (nat i))"

text \<open>Zero-padded fields of \<^verbatim>\<open>strftime\<close>: \<^verbatim>\<open>%Y\<close> has four digits, \<^verbatim>\<open>%m\<close> and \<^verbatim>\<open>%d\<close> two.\<close>

definition zero_pad :: "nat \<Rightarrow> string \<Rightarrow> string" where
  "zero_pad w s = replicate (w - length s) CHR ''0'' @ s"

definition strftime_Ymd :: "datetime \<Rightarrow> string" where
  "strftime_Ymd d =
     zero_pad 4 (str_int (year_of d)) @ ''-'' @ zero_pad 2 (str_nat (month_of d)) @ ''-''
       @ zero_pad 2 (str_nat (day_of d))"

section \<open>Dashboard: the filter (app.py, lines 88-93)\<close>

text \<open>
  \<^verbatim>\<open>Series.isin(values)\<close> is the boolean column of membership tests, \<^verbatim>\<open>&\<close> the
  element-wise conjunction of two boolean columns, and \<^verbatim>\<open>df[mask]\<close> keeps the rows whose
  mask entry is true, in the order of the table.
\<close>

definition isin :: "'a list \<Rightarrow> 'a list \<Rightarrow> bool list" where
  "isin col vals = map (\<lambda>v. v \<in> set vals) col"

definition mask_and :: "bool list \<Rightarrow> bool list \<Rightarrow> bool list" where
  "mask_and m1 m2 = map (\<lambda>(a, b). a \<and> b) (zip m1 m2)"

definition loc_mask :: "'r list \<Rightarrow> bool list \<Rightarrow> 'r list" where
  "loc_mask df m = map fst (filter snd (zip df m))"

definition fdf ::
  "dataframe \<Rightarrow> int list \<Rightarrow> string list \<Rightarrow> string list \<Rightarrow> string list \<Rightarrow> dataframe" where
  "fdf df sel_years sel_cats sel_regions sel_channels =
     loc_mask df
       (mask_and
         (mask_and
           (mask_and (isin (map Year df) sel_years) (isin (map Category df) sel_cats))
           (isin (map Region df) sel_regions))
         (isin (map Channel df) sel_channels))"

section \<open>Dashboard: KPI cards (app.py, lines 108-112)\<close>

text \<open>
  The views below take the filtered table (\<^verbatim>\<open>fdf\<close> in the source) as their argument.
  \<^verbatim>\<open>Series.sum()\<close> of an empty column is 0; \<^verbatim>\<open>Series.mean()\<close> of an empty column is
  \<^verbatim>\<open>NaN\<close> (no exception is raised).
\<close>

definition mean :: "rat list \<Rightarrow> float64" where
  "mean xs = (if xs = [] then None else Some (sum_list xs / of_nat (length xs)))"

definition total_rev :: "dataframe \<Rightarrow> rat" where
  "total_rev tbl = sum_list (map Revenue tbl)"

definition total_profit :: "dataframe \<Rightarrow> rat" where
  "total_profit tbl = sum_list (map Profit tbl)"

definition total_orders :: "dataframe \<Rightarrow> nat" where
  "total_orders tbl = length tbl"

definition avg_order :: "dataframe \<Rightarrow> float64" where
  "avg_order tbl = mean (map Revenue tbl)"

definition profit_margin :: "dataframe \<Rightarrow> rat" where
  "profit_margin tbl =
     (if total_rev tbl > 0 then total_profit tbl / total_rev tbl * 100 else 0)"

section \<open>Dashboard: grouping, sorting, rounding\<close>

text \<open>
  \<^verbatim>\<open>df.groupby(key)\<close> with pandas' defaults: one group for each key value that occurs in
  the table, the groups in ascending key order, the rows of a group in table order. A key
  value that does not occur has no group.
\<close>

definition groupby :: "('r \<Rightarrow> 'k::linorder) \<Rightarrow> 'r list \<Rightarrow> ('k \<times> 'r list) list" where
  "groupby key df = map (\<lambda>k. (k, filter (\<lambda>r. key r = k) df)) (sort (remdups (map key df)))"

text \<open>
  \<^verbatim>\<open>sort_values(..., ascending=False)\<close> on a numeric column: descending; rows with equal
  values stay in table order here (pandas' default sort does not promise an order among
  them, and no property below depends on it). Rows whose value is \<^verbatim>\<open>NaN\<close> go last.
\<close>

definition sort_values_desc :: "('a \<Rightarrow> rat) \<Rightarrow> 'a list \<Rightarrow> 'a list" where
  "sort_values_desc col rows = sort_key (\<lambda>r. - col r) rows"


text \<open>
  Rounding to \<open>nd\<close> decimals, ties to the even neighbour: Python's \<^verbatim>\<open>round(x, nd)\<close> and
  pandas' \<^verbatim>\<open>Series.round(nd)\<close>.
\<close>

definition round_half_even :: "rat \<Rightarrow> int" where
  "round_half_even x =
     (let f = \<lfloor>x\<rfloor>; d = x - of_int f
      in if d < 1 / 2 then f else if 1 / 2 < d then f + 1 else if even f then f else f + 1)"

definition round_to :: "nat \<Rightarrow> rat \<Rightarrow> rat" where
  "round_to nd x = of_int (round_half_even (x * 10 ^ nd)) / 10 ^ nd"


section \<open>Dashboard: revenue by category (app.py, line 160)\<close>

definition cat_rev :: "dataframe \<Rightarrow> (string \<times> rat) list" where
  "cat_rev tbl =
     sort_values_desc snd
       (map (\<lambda>(c, g). (c, sum_list (map Revenue g))) (groupby Category tbl))"

section \<open>Dashboard: return rate by category (app.py, lines 254-259)\<close>





section \<open>Dashboard: orders by day of week (app.py, lines 311-315)\<close>

text \<open>
  \<^verbatim>\<open>reindex(labels)\<close>: one row for each label, in the order of the labels; a label the
  index does not have gets \<^verbatim>\<open>NaN\<close> in every measure.
\<close>

definition dow_order :: "string list" where
  "dow_order = [''Monday'', ''Tuesday'', ''Wednesday'', ''Thursday'', ''Friday'',
                ''Saturday'', ''Sunday'']"

definition reindex :: "'k list \<Rightarrow> ('k \<times> 'v) list \<Rightarrow> ('k \<times> 'v option) list" where
  "reindex labels tbl = map (\<lambda>k. (k, map_of tbl k)) labels"

text \<open>A row of \<^verbatim>\<open>dow\<close>: DayOfWeek and the pair (Orders, Revenue), \<open>None\<close> when both are \<^verbatim>\<open>NaN\<close>.\<close>

definition dow :: "dataframe \<Rightarrow> (string \<times> (nat \<times> rat) option) list" where
  "dow tbl =
     reindex dow_order
       (map (\<lambda>(d, g). (d, (length g, sum_list (map Revenue g)))) (groupby DayOfWeek tbl))"

section \<open>Dashboard: raw data search (app.py, lines 334-341)\<close>

text \<open>
  A cell of a row holds text, an integer, a float or a timestamp. \<open>row_values\<close> lists the
  cells of a row in the column order of the loaded table: the eighteen columns of the file,
  then \<^verbatim>\<open>MonthNum\<close>, \<^verbatim>\<open>DayOfWeek\<close>, \<^verbatim>\<open>WeekNum\<close>. \<open>displayed_values\<close> lists the thirteen columns
  that \<^verbatim>\<open>st.dataframe\<close> is given.
\<close>

datatype cell = StrCell string | IntCell int | FloatCell rat | TimeCell datetime

definition row_values :: "datetime order \<Rightarrow> cell list" where
  "row_values r =
     [StrCell (OrderID r), TimeCell (Date r), StrCell (Month r), StrCell (Quarter r),
      IntCell (Year r), StrCell (Category r), StrCell (Product r), FloatCell (UnitPrice r),
      IntCell (Quantity r), IntCell (Discount r), FloatCell (Revenue r), FloatCell (Profit r),
      StrCell (Region r), StrCell (City r), StrCell (Channel r), StrCell (PaymentMethod r),
      FloatCell (Rating r), IntCell (Returned r),
      StrCell (MonthNum r), StrCell (DayOfWeek r), IntCell (WeekNum r)]"

definition displayed_values :: "datetime order \<Rightarrow> cell list" where
  "displayed_values r =
     [StrCell (OrderID r), TimeCell (Date r), StrCell (Category r), StrCell (Product r),
      IntCell (Quantity r), FloatCell (UnitPrice r), IntCell (Discount r),
      FloatCell (Revenue r), FloatCell (Profit r), StrCell (Region r), StrCell (City r),
      StrCell (Channel r), FloatCell (Rating r)]"

text \<open>
  \<^verbatim>\<open>row.astype(str)\<close> applies \<^verbatim>\<open>str\<close> to each cell. The text of a timestamp at midnight is
  the ISO date followed by \<^verbatim>\<open>00:00:00\<close>. The text of a float is Python's \<^verbatim>\<open>repr\<close>, a function
  of the interpreter: the parameter \<open>str_float\<close>.
\<close>

definition str_timestamp :: "datetime \<Rightarrow> string" where
  "str_timestamp d = strftime_Ymd d @ '' 00:00:00''"

fun astype_str :: "(rat \<Rightarrow> string) \<Rightarrow> cell \<Rightarrow> string" where
  "astype_str str_float (StrCell s) = s"
| "astype_str str_float (IntCell i) = str_int i"
| "astype_str str_float (FloatCell x) = str_float x"
| "astype_str str_float (TimeCell d) = str_timestamp d"

text \<open>
  The search. \<open>str_contains pat s\<close> stands for pandas'
  \<^verbatim>\<open>Series.str.contains(pat, case=False)\<close> on one cell text \<open>s\<close>; pandas reads \<open>pat\<close> as a
  regular expression. The mask is computed over every cell of the row; an empty search
  string skips the block.
\<close>

definition display_df ::
  "(string \<Rightarrow> string \<Rightarrow> bool) \<Rightarrow> (rat \<Rightarrow> string) \<Rightarrow> string \<Rightarrow> dataframe \<Rightarrow> dataframe" where
  "display_df str_contains str_float search tbl =
     (if search \<noteq> []
      then loc_mask tbl
             (map (\<lambda>row. list_ex (str_contains search)
                            (map (astype_str str_float) (row_values row))) tbl)
      else tbl)"

text \<open>The rows \<^verbatim>\<open>st.dataframe\<close> shows: the thirteen columns of the first \<open>n_rows\<close> rows.\<close>

definition shown_rows ::
  "(string \<Rightarrow> string \<Rightarrow> bool) \<Rightarrow> (rat \<Rightarrow> string) \<Rightarrow> string \<Rightarrow> nat \<Rightarrow> dataframe
     \<Rightarrow> cell list list" where
  "shown_rows str_contains str_float search n_rows tbl =
     take n_rows (map displayed_values (display_df str_contains str_float search tbl))"





text \<open>
  The text of a float that is an amount of at most two decimals, as the float columns of
  the example tables are: the integer part, a point, and one or two decimals
  (\<^verbatim>\<open>100.0\<close>, \<^verbatim>\<open>4.5\<close>, \<^verbatim>\<open>12.34\<close>).
\<close>

definition float_str2 :: "rat \<Rightarrow> string" where
  "float_str2 x =
     (let h = nat \<lfloor>\<bar>x\<bar> * 100\<rfloor>; f = h mod 100
      in (if x < 0 then [CHR ''-''] else []) @ str_nat (h div 100) @ [CHR ''.'']
         @ (if f mod 10 = 0 then [digit_char (f div 10)]
            else [digit_char (f div 10), digit_char (f mod 10)]))"

section \<open>Dashboard: the return-rate row of one category\<close>


section \<open>Generator: configuration (generate_data.py, lines 12-34)\<close>

definition START_DATE :: datetime where
  "START_DATE = ymd2ord 2022 1 1"

definition END_DATE :: datetime where
  "END_DATE = ymd2ord 2024 12 31"

definition N_ORDERS :: nat where
  "N_ORDERS = 5000"

record category_info =
  products :: "string list"
  price_range :: "rat \<times> rat"

definition CATEGORIES :: "(string \<times> category_info) list" where
  "CATEGORIES =
     [(''Electronics'',
         \<lparr>products = [''Laptop'', ''Smartphone'', ''Tablet'', ''Headphones'', ''Smartwatch''],
          price_range = (150, 1200)\<rparr>),
      (''Clothing'',
         \<lparr>products = [''T-Shirt'', ''Jeans'', ''Jacket'', ''Dress'', ''Shoes''],
          price_range = (20, 200)\<rparr>),
      (''Home & Living'',
         \<lparr>products = [''Sofa'', ''Lamp'', ''Bedsheet'', ''Curtains'', ''Cookware''],
          price_range = (30, 800)\<rparr>),
      (''Books'',
         \<lparr>products = [''Fiction'', ''Non-Fiction'', ''Textbook'', ''Comic'', ''Biography''],
          price_range = (10, 80)\<rparr>),
      (''Sports'',
         \<lparr>products = [''Yoga Mat'', ''Dumbbells'', ''Cycle'', ''Tennis Racket'', ''Shoes''],
          price_range = (25, 500)\<rparr>),
      (''Beauty'',
         \<lparr>products = [''Perfume'', ''Skincare Kit'', ''Lipstick'', ''Hair Dryer'', ''Serum''],
          price_range = (15, 250)\<rparr>)]"

definition REGIONS :: "string list" where
  "REGIONS = [''North'', ''South'', ''East'', ''West'', ''Central'']"

definition CITIES :: "(string \<times> string list) list" where
  "CITIES =
     [(''North'', [''Delhi'', ''Chandigarh'', ''Amritsar'']),
      (''South'', [''Bangalore'', ''Chennai'', ''Hyderabad'']),
      (''East'', [''Kolkata'', ''Bhubaneswar'', ''Patna'']),
      (''West'', [''Mumbai'', ''Pune'', ''Ahmedabad'']),
      (''Central'', [''Bhopal'', ''Indore'', ''Nagpur''])]"

definition CHANNELS :: "string list" where
  "CHANNELS = [''Website'', ''Mobile App'', ''Marketplace'', ''Direct'']"

definition PAYMENT :: "string list" where
  "PAYMENT = [''Credit Card'', ''Debit Card'', ''UPI'', ''Net Banking'', ''COD'']"

section \<open>Generator: the random number generator\<close>

text \<open>
  \<^verbatim>\<open>numpy.random\<close> is a library: its global generator is a state of type \<open>'s\<close>, and each
  call returns its value together with the next state. \<open>randint lo hi\<close>, \<open>rand\<close>,
  \<open>uniform lo hi\<close> are the calls of the same names, \<open>seed\<close> is \<^verbatim>\<open>np.random.seed\<close>;
  \<open>choice_index n p\<close> is the index that \<^verbatim>\<open>np.random.choice\<close> draws in a sequence of length
  \<open>n\<close> with the optional weights \<open>p\<close>.
\<close>

record 's np_random =
  seed :: "nat \<Rightarrow> 's"
  randint :: "int \<Rightarrow> int \<Rightarrow> 's \<Rightarrow> int \<times> 's"
  rand :: "'s \<Rightarrow> rat \<times> 's"
  uniform :: "rat \<Rightarrow> rat \<Rightarrow> 's \<Rightarrow> rat \<times> 's"
  choice_index :: "nat \<Rightarrow> rat list option \<Rightarrow> 's \<Rightarrow> nat \<times> 's"

definition choice :: "'s np_random \<Rightarrow> 'a list \<Rightarrow> rat list option \<Rightarrow> 's \<Rightarrow> 'a \<times> 's" where
  "choice R xs p s = (let (i, s') = choice_index R (length xs) p s in (xs ! i, s'))"

text \<open>
  What numpy documents of these calls: \<open>randint lo hi\<close> lies in \<open>[lo, hi)\<close>, \<open>rand\<close> in
  \<open>[0, 1)\<close>, \<open>uniform lo hi\<close> between \<open>lo\<close> and \<open>hi\<close>, and \<open>choice\<close> returns an element of a
  non-empty sequence.
\<close>

definition np_random_ok :: "'s np_random \<Rightarrow> bool" where
  "np_random_ok R \<longleftrightarrow>
     (\<forall>lo hi s. lo < hi \<longrightarrow> lo \<le> fst (randint R lo hi s) \<and> fst (randint R lo hi s) < hi) \<and>
     (\<forall>s. 0 \<le> fst (rand R s) \<and> fst (rand R s) < 1) \<and>
     (\<forall>lo hi s. lo \<le> hi \<longrightarrow> lo \<le> fst (uniform R lo hi s) \<and> fst (uniform R lo hi s) \<le> hi) \<and>
     (\<forall>n p s. 0 < n \<longrightarrow> fst (choice_index R n p s) < n)"

section \<open>Generator: dates (generate_data.py, lines 37-45)\<close>

definition total_days :: int where
  "total_days = END_DATE - START_DATE"

definition draw_date :: "'s np_random \<Rightarrow> 's \<Rightarrow> datetime \<times> 's" where
  "draw_date R s =
     (let (k, s1) = randint R 0 total_days s;
          d = START_DATE + k
      in if month_of d \<in> set [10, 11, 12]
         then (let (u, s2) = rand R s1
               in if u < 3 / 10
                  then (let (k2, s3) = randint R 0 total_days s2 in (START_DATE + k2, s3))
                  else (d, s2))
         else (d, s1))"

fun draw_dates :: "'s np_random \<Rightarrow> nat \<Rightarrow> 's \<Rightarrow> datetime list \<times> 's" where
  "draw_dates R 0 s = ([], s)"
| "draw_dates R (Suc n) s =
     (let (d, s1) = draw_date R s;
          (ds, s2) = draw_dates R n s1
      in (d # ds, s2))"

definition dates :: "'s np_random \<Rightarrow> nat \<Rightarrow> 's \<Rightarrow> datetime list" where
  "dates R n s = sort (fst (draw_dates R n s))"

section \<open>Generator: records (generate_data.py, lines 48-87)\<close>

definition month_abbr :: "string list" where
  "month_abbr = [''Jan'', ''Feb'', ''Mar'', ''Apr'', ''May'', ''Jun'', ''Jul'', ''Aug'', ''Sep'',
                 ''Oct'', ''Nov'', ''Dec'']"

definition strftime_bY :: "datetime \<Rightarrow> string" where
  "strftime_bY d = month_abbr ! (month_of d - 1) @ '' '' @ zero_pad 4 (str_int (year_of d))"

definition quarter_text :: "datetime \<Rightarrow> string" where
  "quarter_text d = ''Q'' @ str_nat ((month_of d - 1) div 3 + 1) @ '' '' @ str_int (year_of d)"

text \<open>
  One iteration of the loop over \<^verbatim>\<open>enumerate(dates)\<close>; the draws are in the order of the
  source. A dictionary lookup that finds no key raises \<^verbatim>\<open>KeyError\<close>: \<open>None\<close>.
\<close>

definition gen_record ::
  "'s np_random \<Rightarrow> nat \<Rightarrow> datetime \<Rightarrow> 's \<Rightarrow> (string sales_row \<times> 's) option" where
  "gen_record R i date s0 =
     (let (category, s1) =
            choice R (map fst CATEGORIES)
              (Some [25 / 100, 20 / 100, 15 / 100, 10 / 100, 15 / 100, 15 / 100]) s0
      in case map_of CATEGORIES category of
           None \<Rightarrow> None
         | Some cat_info \<Rightarrow>
             (let (product, s2) = choice R (products cat_info) None s1;
                  (lo, hi) = price_range cat_info;
                  (x, s3) = uniform R lo hi s2;
                  price = round_to 2 x;
                  (qty, s4) =
                    choice R [1, 1, 1, 2, 2, 3]
                      (Some [4 / 10, 2 / 10, 1 / 10, 15 / 100, 1 / 10, 5 / 100]) s3;
                  (discount, s5) =
                    choice R [0, 5, 10, 15, 20, 25]
                      (Some [3 / 10, 2 / 10, 2 / 10, 15 / 100, 1 / 10, 5 / 100]) s4;
                  revenue = round_to 2 (price * of_int qty * (1 - of_int discount / 100));
                  (margin, s6) = uniform R (15 / 100) (40 / 100) s5;
                  profit = round_to 2 (revenue * margin);
                  (region, s7) = choice R REGIONS None s6
              in case map_of CITIES region of
                   None \<Rightarrow> None
                 | Some cities \<Rightarrow>
                     (let (city, s8) = choice R cities None s7;
                          (channel, s9) =
                            choice R CHANNELS (Some [35 / 100, 30 / 100, 25 / 100, 10 / 100]) s8;
                          (payment, s10) =
                            choice R PAYMENT
                              (Some [25 / 100, 20 / 100, 30 / 100, 10 / 100, 15 / 100]) s9;
                          (rating0, s11) =
                            choice R [3, 7 / 2, 4, 9 / 2, 5]
                              (Some [5 / 100, 10 / 100, 30 / 100, 35 / 100, 20 / 100]) s10;
                          rating = round_to 1 rating0;
                          (returned, s12) = choice R [0, 1] (Some [92 / 100, 8 / 100]) s11
                      in Some
                           (\<lparr>OrderID = ''ORD-'' @ str_nat (10000 + i),
                             Date = strftime_Ymd date,
                             Month = strftime_bY date,
                             Quarter = quarter_text date,
                             Year = year_of date,
                             Category = category,
                             Product = product,
                             UnitPrice = price,
                             Quantity = qty,
                             Discount = discount,
                             Revenue = revenue,
                             Profit = profit,
                             Region = region,
                             City = city,
                             Channel = channel,
                             PaymentMethod = payment,
                             Rating = rating,
                             Returned = returned\<rparr>, s12))))"

fun gen_records ::
  "'s np_random \<Rightarrow> nat \<Rightarrow> datetime list \<Rightarrow> 's \<Rightarrow> (string sales_row list \<times> 's) option" where
  "gen_records R i [] s = Some ([], s)"
| "gen_records R i (date # ds) s =
     (case gen_record R i date s of
        None \<Rightarrow> None
      | Some (r, s1) \<Rightarrow>
          (case gen_records R (Suc i) ds s1 of
             None \<Rightarrow> None
           | Some (rs, s2) \<Rightarrow> Some (r # rs, s2)))"

text \<open>The script for \<open>n\<close> orders from the generator state \<open>s\<close>; the source runs
  \<open>records R N_ORDERS (seed R 42)\<close>.\<close>

definition records :: "'s np_random \<Rightarrow> nat \<Rightarrow> 's \<Rightarrow> (string sales_row list \<times> 's) option" where
  "records R n s = gen_records R 0 (dates R n s) (snd (draw_dates R n s))"

text \<open>
  What the specification says of the record with index \<open>i\<close> generated for \<open>date\<close>: its
  identifier and date text, product and city drawn from the lists of its category and
  region, and the revenue and profit formulas.
\<close>

definition record_ok :: "nat \<Rightarrow> datetime \<Rightarrow> string sales_row \<Rightarrow> bool" where
  "record_ok i date r \<longleftrightarrow>
     OrderID r = ''ORD-'' @ str_nat (10000 + i)
     \<and> Date r = strftime_Ymd date
     \<and> (\<exists>info. map_of CATEGORIES (Category r) = Some info \<and> Product r \<in> set (products info))
     \<and> (\<exists>cities. map_of CITIES (Region r) = Some cities \<and> City r \<in> set cities)
     \<and> 0 \<le> UnitPrice r \<and> Quantity r \<in> {1, 2, 3} \<and> Discount r \<in> {0, 5, 10, 15, 20, 25}
     \<and> Revenue r = round_to 2 (UnitPrice r * of_int (Quantity r)
                                 * (1 - of_int (Discount r) / 100))
     \<and> (\<exists>margin. 15 / 100 \<le> margin \<and> margin \<le> 40 / 100
                  \<and> Profit r = round_to 2 (Revenue r * margin))"

text \<open>
  A generator for the examples: the state is a counter, and every call returns a value in
  its documented range.
\<close>

definition counter_rng :: "nat np_random" where
  "counter_rng =
     \<lparr>seed = (\<lambda>k. k),
      randint = (\<lambda>lo hi s. (lo + int (s * 397) mod (hi - lo), Suc s)),
      rand = (\<lambda>s. (of_nat (s mod 10) / 10, Suc s)),
      uniform = (\<lambda>lo hi s. (lo + (hi - lo) * of_nat (s mod 4) / 4, Suc s)),
      choice_index = (\<lambda>n p s. (s mod n, Suc s))\<rparr>"

section \<open>Example tables\<close>

definition row_a :: "datetime order" where
  "row_a = \<lparr>OrderID = ''ORD-10000'', Date = 738156, Month = ''Jan 2022'',
     Quarter = ''Q1 2022'', Year = 2022, Category = ''Electronics'', Product = ''Laptop'',
     UnitPrice = 100, Quantity = 1, Discount = 0, Revenue = 100, Profit = 20,
     Region = ''North'', City = ''Delhi'', Channel = ''Website'', PaymentMethod = ''UPI'',
     Rating = 9 / 2, Returned = 0,
     MonthNum = ''2022-01'', DayOfWeek = ''Saturday'', WeekNum = 52\<rparr>"

definition row_b :: "datetime order" where
  "row_b = row_a\<lparr>OrderID := ''ORD-10001'', Category := ''Clothing'', Product := ''Jeans'',
     UnitPrice := 50, Revenue := 50, Profit := 10, Returned := 1\<rparr>"

definition row_c :: "datetime order" where
  "row_c = row_a\<lparr>OrderID := ''ORD-10002'', Date := 738521, Month := ''Jan 2023'',
     Quarter := ''Q1 2023'', Year := 2023, UnitPrice := 200, Revenue := 200, Profit := 40,
     MonthNum := ''2023-01'', DayOfWeek := ''Sunday''\<rparr>"

definition df_example :: dataframe where
  "df_example = [row_a, row_b, row_c]"

definition gen_row_1 :: "string sales_row" where
  "gen_row_1 = \<lparr>OrderID = ''ORD-10000'', Date = ''2024-09-13'', Month = ''Sep 2024'',
     Quarter = ''Q3 2024'', Year = 2024, Category = ''Electronics'', Product = ''Headphones'',
     UnitPrice = 675, Quantity = 2, Discount = 20, Revenue = 1080, Profit = 459 / 2,
     Region = ''West'', City = ''Pune'', Channel = ''Website'', PaymentMethod = ''Debit Card'',
     Rating = 4, Returned = 1\<rparr>"

definition gen_row_2 :: "string sales_row" where
  "gen_row_2 = \<lparr>OrderID = ''ORD-10001'', Date = ''2024-12-18'', Month = ''Dec 2024'',
     Quarter = ''Q4 2024'', Year = 2024, Category = ''Electronics'', Product = ''Laptop'',
     UnitPrice = 675, Quantity = 2, Discount = 20, Revenue = 1080, Profit = 459 / 2,
     Region = ''North'', City = ''Chandigarh'', Channel = ''Website'',
     PaymentMethod = ''Net Banking'', Rating = 5, Returned = 1\<rparr>"

section \<open>Properties of the filter\<close>

lemma loc_mask_map: "loc_mask df (map P df) = filter P df"
  unfolding loc_mask_def by (induction df) simp_all

lemma mask_and_map: "mask_and (map P xs) (map Q xs) = map (\<lambda>x. P x \<and> Q x) xs"
  unfolding mask_and_def by (induction xs) simp_all

lemma isin_map: "isin (map f df) vals = map (\<lambda>r. f r \<in> set vals) df"
  unfolding isin_def by simp

lemma fdf_filter:
  "fdf df ys cs rs chs =
     filter (\<lambda>r. Year r \<in> set ys \<and> Category r \<in> set cs \<and> Region r \<in> set rs \<and>
                  Channel r \<in> set chs) df"
  unfolding fdf_def isin_map mask_and_map loc_mask_map by simp

text \<open>
  C1. The filter returns exactly the rows whose Year, Category, Region and Channel each
  belong to the corresponding selection (conjunction over the four dimensions, membership
  within each), in the order of the table; so it has at most as many rows as the table, and
  it is empty as soon as one selection is empty.
\<close>

theorem fdf_exactly_selected:
  "fdf df ys cs rs chs =
     filter (\<lambda>r. Year r \<in> set ys \<and> Category r \<in> set cs \<and> Region r \<in> set rs \<and>
                  Channel r \<in> set chs) df
   \<and> length (fdf df ys cs rs chs) \<le> length df
   \<and> (ys = [] \<or> cs = [] \<or> rs = [] \<or> chs = [] \<longrightarrow> fdf df ys cs rs chs = [])"
proof (intro conjI impI)
  show "length (fdf df ys cs rs chs) \<le> length df"
    by (simp add: fdf_filter)
next
  assume "ys = [] \<or> cs = [] \<or> rs = [] \<or> chs = []"
  then show "fdf df ys cs rs chs = []"
    by (auto simp: fdf_filter)
qed (rule fdf_filter)

theorem fdf_exactly_selected_witness:
  "fdf df_example [2022] [''Electronics'', ''Clothing''] [''North''] [''Website''] = [row_a, row_b]
   \<and> fdf df_example [2022, 2023] [''Electronics'', ''Clothing''] [] [''Website''] = []"
proof -
  have "fdf df_example [2022, 2023] [''Electronics'', ''Clothing''] [] [''Website''] = []"
    using fdf_exactly_selected [of df_example "[2022, 2023]" "[''Electronics'', ''Clothing'']"
        "[]" "[''Website'']"]
    by simp
  moreover have "fdf df_example [2022] [''Electronics'', ''Clothing''] [''North''] [''Website'']
      = [row_a, row_b]"
    using fdf_exactly_selected [of df_example "[2022]" "[''Electronics'', ''Clothing'']"
        "[''North'']" "[''Website'']"]
    by (simp add: df_example_def row_a_def row_b_def row_c_def)
  ultimately show ?thesis by simp
qed

text \<open>
  C10. Filtering is idempotent: filtering the filtered table with the same selections
  changes nothing; and the result is a subsequence of the table, so the surviving rows
  keep their relative order.
\<close>

theorem fdf_idempotent:
  "fdf (fdf df ys cs rs chs) ys cs rs chs = fdf df ys cs rs chs
   \<and> subseq (fdf df ys cs rs chs) df"
  by (simp add: fdf_filter)

section \<open>Properties of the KPI cards\<close>

lemma profit_margin_guard:
  "profit_margin tbl =
     (if 0 < total_rev tbl then total_profit tbl / total_rev tbl * 100 else 0)"
  by (simp add: profit_margin_def)

lemma avg_order_nonempty:
  "tbl \<noteq> [] \<Longrightarrow> avg_order tbl = Some (total_rev tbl / of_nat (length tbl))"
  by (simp add: avg_order_def mean_def total_rev_def)

text \<open>
  C2. On the empty filtered table the profit margin is 0, but the average order value is
  not: \<^verbatim>\<open>fdf['Revenue'].mean()\<close> has no guard and is \<^verbatim>\<open>NaN\<close> there, while the total revenue
  is 0. The claim's value 0 for the average order value is not what the code computes.
\<close>

theorem kpi_empty_table:
  "avg_order [] = None \<and> profit_margin [] = 0 \<and> total_rev [] = 0"
  by (simp add: avg_order_def mean_def profit_margin_def total_rev_def)

section \<open>Properties of grouping\<close>

lemma groupby_keys: "map fst (groupby key df) = sort (remdups (map key df))"
  unfolding groupby_def by (simp add: comp_def)

lemma groupby_set:
  "set (groupby key df) = (\<lambda>k. (k, filter (\<lambda>r. key r = k) df)) ` key ` set df"
  unfolding groupby_def by simp

lemma sum_list_single_key:
  fixes c :: "'b::comm_monoid_add"
  shows "distinct ks \<Longrightarrow> a \<in> set ks \<Longrightarrow> (\<Sum>k\<leftarrow>ks. if a = k then c else 0) = c"
  by (simp add: sum_list_distinct_conv_sum_set)

lemma sum_list_groups:
  fixes f :: "'r \<Rightarrow> 'b::comm_monoid_add"
  assumes "distinct ks" and "key ` set df \<subseteq> set ks"
  shows "(\<Sum>k\<leftarrow>ks. sum_list (map f (filter (\<lambda>r. key r = k) df))) = sum_list (map f df)"
  using assms(2)
proof (induction df)
  case Nil
  show ?case by simp
next
  case (Cons r df)
  have "(\<Sum>k\<leftarrow>ks. sum_list (map f (filter (\<lambda>x. key x = k) (r # df))))
      = (\<Sum>k\<leftarrow>ks. (if key r = k then f r else 0) + sum_list (map f (filter (\<lambda>x. key x = k) df)))"
    by (rule arg_cong [where f = sum_list]) simp
  also have "\<dots> = (\<Sum>k\<leftarrow>ks. if key r = k then f r else 0)
      + (\<Sum>k\<leftarrow>ks. sum_list (map f (filter (\<lambda>x. key x = k) df)))"
    by (simp add: sum_list_addf)
  also have "\<dots> = f r + sum_list (map f df)"
    using Cons assms(1) by (simp add: sum_list_single_key)
  finally show ?case by simp
qed

lemma sum_list_sort_key:
  fixes g :: "'a \<Rightarrow> 'b::comm_monoid_add"
  shows "sum_list (map g (sort_key f xs)) = sum_list (map g xs)"
proof -
  have "sum_mset (image_mset g (mset (sort_key f xs))) = sum_mset (image_mset g (mset xs))"
    by simp
  then show ?thesis
    by (simp only: mset_map [symmetric] sum_mset_sum_list)
qed

text \<open>
  C5. The revenues of the category breakdown add up to the total revenue of the filtered
  table: grouping by category partitions the rows, and sorting the groups does not change
  the sum. (Exact in the rational model; floating-point summation order is not modelled.)
\<close>

theorem cat_rev_total: "sum_list (map snd (cat_rev tbl)) = total_rev tbl"
proof -
  have "sum_list (map snd (cat_rev tbl))
      = (\<Sum>k\<leftarrow>remdups (map Category tbl).
           sum_list (map Revenue (filter (\<lambda>r. Category r = k) tbl)))"
    by (simp add: cat_rev_def sort_values_desc_def sum_list_sort_key groupby_def comp_def)
  also have "\<dots> = sum_list (map Revenue tbl)"
    by (rule sum_list_groups) simp_all
  finally show ?thesis by (simp add: total_rev_def)
qed

section \<open>Properties of the day-of-week view\<close>

lemma map_of_keyed:
  "map_of (map (\<lambda>k. (k, f k)) ks) d = (if d \<in> set ks then Some (f d) else None)"
  by (induction ks) auto

lemma dow_rows:
  "dow tbl =
     map (\<lambda>d. (d, if d \<in> DayOfWeek ` set tbl
                    then Some (length (filter (\<lambda>r. DayOfWeek r = d) tbl),
                               sum_list (map Revenue (filter (\<lambda>r. DayOfWeek r = d) tbl)))
                    else None))
       dow_order"
proof -
  let ?h = "\<lambda>g. (length g, sum_list (map Revenue g))"
  have "map (\<lambda>(d, g). (d, ?h g)) (groupby DayOfWeek tbl)
      = map (\<lambda>k. (k, ?h (filter (\<lambda>r. DayOfWeek r = k) tbl)))
          (sort (remdups (map DayOfWeek tbl)))"
    by (simp add: groupby_def comp_def)
  then show ?thesis
    unfolding dow_def reindex_def by (simp add: map_of_keyed)
qed

text \<open>
  C4. For every filtered table, the empty one included, the day-of-week view has exactly
  seven rows, Monday to Sunday in this order; a day that no filtered row has still has its
  row, with undefined (\<^verbatim>\<open>NaN\<close>) measures, and a day that occurs carries its order count and
  revenue sum.
\<close>

theorem dow_seven_rows:
  "length (dow tbl) = 7
   \<and> map fst (dow tbl) =
       [''Monday'', ''Tuesday'', ''Wednesday'', ''Thursday'', ''Friday'', ''Saturday'', ''Sunday'']
   \<and> (\<forall>d. d \<in> set dow_order \<longrightarrow> d \<notin> DayOfWeek ` set tbl \<longrightarrow> (d, None) \<in> set (dow tbl))
   \<and> (\<forall>d. d \<in> set dow_order \<longrightarrow> d \<in> DayOfWeek ` set tbl \<longrightarrow>
         (d, Some (length (filter (\<lambda>r. DayOfWeek r = d) tbl),
                   sum_list (map Revenue (filter (\<lambda>r. DayOfWeek r = d) tbl)))) \<in> set (dow tbl))"
proof (intro conjI allI impI)
  show "length (dow tbl) = 7"
    by (simp add: dow_rows dow_order_def)
  show "map fst (dow tbl) =
      [''Monday'', ''Tuesday'', ''Wednesday'', ''Thursday'', ''Friday'', ''Saturday'', ''Sunday'']"
    by (simp add: dow_rows dow_order_def)
next
  fix d
  assume "d \<in> set dow_order" and "d \<notin> DayOfWeek ` set tbl"
  then show "(d, None) \<in> set (dow tbl)"
    unfolding dow_rows by (simp add: image_iff)
next
  fix d
  assume "d \<in> set dow_order" and "d \<in> DayOfWeek ` set tbl"
  then show "(d, Some (length (filter (\<lambda>r. DayOfWeek r = d) tbl),
      sum_list (map Revenue (filter (\<lambda>r. DayOfWeek r = d) tbl)))) \<in> set (dow tbl)"
    unfolding dow_rows by (simp add: image_iff)
qed

theorem dow_seven_rows_witness:
  "dow df_example =
     [(''Monday'', None), (''Tuesday'', None), (''Wednesday'', None), (''Thursday'', None),
      (''Friday'', None), (''Saturday'', Some (2, 150)), (''Sunday'', Some (1, 200))]
   \<and> (''Monday'', None) \<in> set (dow df_example)
   \<and> dow [] = map (\<lambda>d. (d, None)) dow_order"
proof -
  have ex: "dow df_example =
     [(''Monday'', None), (''Tuesday'', None), (''Wednesday'', None), (''Thursday'', None),
      (''Friday'', None), (''Saturday'', Some (2, 150)), (''Sunday'', Some (1, 200))]"
    by (simp add: dow_rows dow_order_def df_example_def row_a_def row_b_def row_c_def)
  have "''Monday'' \<in> set dow_order" and "''Monday'' \<notin> DayOfWeek ` set df_example"
    by (simp_all add: dow_order_def df_example_def row_a_def row_b_def row_c_def)
  then have "(''Monday'', None) \<in> set (dow df_example)"
    using dow_seven_rows [of df_example] by blast
  moreover have "dow [] = map (\<lambda>d. (d, None)) dow_order"
    by (simp add: dow_rows)
  ultimately show ?thesis using ex by simp
qed

section \<open>Properties of the return-rate view\<close>











section \<open>Properties of the raw data search\<close>

lemmas text_defs = str_timestamp_def strftime_Ymd_def year_of_def month_of_def day_of_def
  ord2ymd_def Let_def DAYS_IN_MONTH_def str_nat.simps str_int_def digit_char_def zero_pad_def
  float_str2_def










section \<open>Properties of the generator\<close>

lemma round_half_even_nonneg: "0 \<le> x \<Longrightarrow> 0 \<le> round_half_even x"
  by (auto simp: round_half_even_def Let_def)

lemma round_to_nonneg: "0 \<le> x \<Longrightarrow> 0 \<le> round_to nd x"
  by (simp add: round_to_def round_half_even_nonneg)

lemma choice_mem:
  assumes "np_random_ok R" and "xs \<noteq> []" and "choice R xs p s = (x, s')"
  shows "x \<in> set xs"
proof -
  have "fst (choice_index R (length xs) p s) < length xs"
    using assms(1,2) by (simp add: np_random_ok_def)
  moreover have "x = xs ! fst (choice_index R (length xs) p s)"
    using assms(3) by (simp add: choice_def split: prod.splits)
  ultimately show ?thesis by simp
qed

lemma uniform_range:
  assumes "np_random_ok R" and "lo \<le> hi" and "uniform R lo hi s = (x, s')"
  shows "lo \<le> x \<and> x \<le> hi"
proof -
  have "lo \<le> fst (uniform R lo hi s) \<and> fst (uniform R lo hi s) \<le> hi"
    using assms(1,2) unfolding np_random_ok_def by blast
  then show ?thesis by (simp add: assms(3))
qed

lemma CATEGORIES_entries:
  assumes "(c, info) \<in> set CATEGORIES"
  shows "map_of CATEGORIES c = Some info \<and> products info \<noteq> []
         \<and> 0 \<le> fst (price_range info) \<and> fst (price_range info) \<le> snd (price_range info)"
proof -
  have "distinct (map fst CATEGORIES)"
    by (simp add: CATEGORIES_def)
  then have "map_of CATEGORIES c = Some info"
    using assms by (rule map_of_is_SomeI)
  moreover have "products info \<noteq> [] \<and> 0 \<le> fst (price_range info)
      \<and> fst (price_range info) \<le> snd (price_range info)"
    using assms by (auto simp: CATEGORIES_def)
  ultimately show ?thesis by simp
qed

lemma category_lookup:
  assumes "c \<in> set (map fst CATEGORIES)"
  obtains info where "map_of CATEGORIES c = Some info" and "products info \<noteq> []"
    and "0 \<le> fst (price_range info)" and "fst (price_range info) \<le> snd (price_range info)"
proof -
  from assms obtain info where "(c, info) \<in> set CATEGORIES" by auto
  from CATEGORIES_entries [OF this] that show thesis by blast
qed

lemma region_lookup:
  assumes "rg \<in> set REGIONS"
  obtains cities where "map_of CITIES rg = Some cities" and "cities \<noteq> []"
  using assms by (auto simp: REGIONS_def CITIES_def)


lemma gen_record_fields:
  assumes ok: "np_random_ok R"
  shows "\<exists>r s' info cities margin.
           gen_record R i date s = Some (r, s')
           \<and> OrderID r = ''ORD-'' @ str_nat (10000 + i)
           \<and> Date r = strftime_Ymd date
           \<and> map_of CATEGORIES (Category r) = Some info \<and> Product r \<in> set (products info)
           \<and> map_of CITIES (Region r) = Some cities \<and> City r \<in> set cities
           \<and> 0 \<le> UnitPrice r \<and> Quantity r \<in> {1, 2, 3} \<and> Discount r \<in> {0, 5, 10, 15, 20, 25}
           \<and> Revenue r = round_to 2 (UnitPrice r * of_int (Quantity r)
                                       * (1 - of_int (Discount r) / 100))
           \<and> 15 / 100 \<le> margin \<and> margin \<le> 40 / 100
           \<and> Profit r = round_to 2 (Revenue r * margin)"
proof -
  let ?c1 = "choice R (map fst CATEGORIES)
      (Some [25 / 100, 20 / 100, 15 / 100, 10 / 100, 15 / 100, 15 / 100]) s"
  obtain category s1 where d1: "?c1 = (category, s1)" by (cases ?c1)
  have "category \<in> set (map fst CATEGORIES)"
    using ok _ d1 by (rule choice_mem) (simp add: CATEGORIES_def)
  then obtain info where info: "map_of CATEGORIES category = Some info"
    and prods: "products info \<noteq> []"
    and lo0: "0 \<le> fst (price_range info)"
    and lohi: "fst (price_range info) \<le> snd (price_range info)"
    by (rule category_lookup)
  obtain lo hi where pr: "price_range info = (lo, hi)" by (cases "price_range info")
  obtain product s2 where d2: "choice R (products info) None s1 = (product, s2)"
    by (cases "choice R (products info) None s1")
  obtain x s3 where d3: "uniform R lo hi s2 = (x, s3)" by (cases "uniform R lo hi s2")
  let ?c4 = "choice R [1, 1, 1, 2, 2, 3::int]
      (Some [4 / 10, 2 / 10, 1 / 10, 15 / 100, 1 / 10, 5 / 100]) s3"
  obtain qty s4 where d4: "?c4 = (qty, s4)" by (cases ?c4)
  let ?c5 = "choice R [0, 5, 10, 15, 20, 25::int]
      (Some [3 / 10, 2 / 10, 2 / 10, 15 / 100, 1 / 10, 5 / 100]) s4"
  obtain discount s5 where d5: "?c5 = (discount, s5)" by (cases ?c5)
  obtain margin s6 where d6: "uniform R (15 / 100) (40 / 100) s5 = (margin, s6)"
    by (cases "uniform R (15 / 100) (40 / 100) s5")
  obtain region s7 where d7: "choice R REGIONS None s6 = (region, s7)"
    by (cases "choice R REGIONS None s6")
  have "region \<in> set REGIONS"
    using ok _ d7 by (rule choice_mem) (simp add: REGIONS_def)
  then obtain cities where cities: "map_of CITIES region = Some cities" and cne: "cities \<noteq> []"
    by (rule region_lookup)
  obtain city s8 where d8: "choice R cities None s7 = (city, s8)"
    by (cases "choice R cities None s7")
  let ?c9 = "choice R CHANNELS (Some [35 / 100, 30 / 100, 25 / 100, 10 / 100]) s8"
  obtain channel s9 where d9: "?c9 = (channel, s9)" by (cases ?c9)
  let ?c10 = "choice R PAYMENT (Some [25 / 100, 20 / 100, 30 / 100, 10 / 100, 15 / 100]) s9"
  obtain payment s10 where d10: "?c10 = (payment, s10)" by (cases ?c10)
  let ?c11 = "choice R [3, 7 / 2, 4, 9 / 2, 5::rat]
      (Some [5 / 100, 10 / 100, 30 / 100, 35 / 100, 20 / 100]) s10"
  obtain rating0 s11 where d11: "?c11 = (rating0, s11)" by (cases ?c11)
  let ?c12 = "choice R [0, 1::int] (Some [92 / 100, 8 / 100]) s11"
  obtain returned s12 where d12: "?c12 = (returned, s12)" by (cases ?c12)
  have p2: "product \<in> set (products info)"
    using ok prods d2 by (rule choice_mem)
  have p3: "lo \<le> x"
    using uniform_range [OF ok _ d3] lohi pr by simp
  have "0 \<le> x" using p3 lo0 pr by simp
  then have price: "0 \<le> round_to 2 x" by (rule round_to_nonneg)
  have p4: "qty \<in> {1, 2, 3}"
    using choice_mem [OF ok _ d4] by auto
  have p5: "discount \<in> {0, 5, 10, 15, 20, 25}"
    using choice_mem [OF ok _ d5] by auto
  have p6: "15 / 100 \<le> margin \<and> margin \<le> 40 / 100"
    using uniform_range [OF ok _ d6] by simp
  have p8: "city \<in> set cities"
    using ok cne d8 by (rule choice_mem)
  have "gen_record R i date s =
      Some (\<lparr>OrderID = ''ORD-'' @ str_nat (10000 + i), Date = strftime_Ymd date,
             Month = strftime_bY date, Quarter = quarter_text date, Year = year_of date,
             Category = category, Product = product, UnitPrice = round_to 2 x,
             Quantity = qty, Discount = discount,
             Revenue = round_to 2 (round_to 2 x * of_int qty * (1 - of_int discount / 100)),
             Profit = round_to 2
               (round_to 2 (round_to 2 x * of_int qty * (1 - of_int discount / 100)) * margin),
             Region = region, City = city, Channel = channel, PaymentMethod = payment,
             Rating = round_to 1 rating0, Returned = returned\<rparr>, s12)"
    by (simp only: gen_record_def Let_def d1 prod.case info option.case d2 pr d3 d4 d5 d6 d7
        cities d8 d9 d10 d11 d12)
  then show ?thesis
    using info cities p2 p8 price p4 p5 p6 by auto
qed


lemma gen_record_ok:
  assumes "np_random_ok R"
  shows "\<exists>r s'. gen_record R i date s = Some (r, s') \<and> record_ok i date r"
  using gen_record_fields [OF assms, of i date s] unfolding record_ok_def by blast

lemma gen_records_ok:
  assumes "np_random_ok R"
  shows "\<exists>rs s'. gen_records R i ds s = Some (rs, s')
           \<and> list_all2 (\<lambda>(j, d) r. record_ok j d r) (zip [i..<i + length ds] ds) rs"
proof (induction ds arbitrary: i s)
  case Nil
  show ?case by simp
next
  case (Cons d ds)
  obtain r s1 where r: "gen_record R i d s = Some (r, s1)" and rok: "record_ok i d r"
    using gen_record_ok [OF assms] by blast
  obtain rs s2 where rs: "gen_records R (Suc i) ds s1 = Some (rs, s2)"
    and rsok: "list_all2 (\<lambda>(j, d) r. record_ok j d r) (zip [Suc i..<Suc i + length ds] ds) rs"
    using Cons.IH by blast
  have "[i..<i + length (d # ds)] = i # [Suc i..<Suc i + length ds]"
    using upt_conv_Cons [of i "i + Suc (length ds)"] by simp
  then show ?case
    using r rok rs rsok by simp
qed

lemma total_days_eq: "total_days = 1095"
  by (simp add: total_days_def END_DATE_def START_DATE_def ymd2ord_def days_before_year_def
      days_before_month_def is_leap_def DAYS_IN_MONTH_def Let_def)

lemma draw_date_range:
  assumes "np_random_ok R"
  shows "START_DATE \<le> fst (draw_date R s) \<and> fst (draw_date R s) \<le> END_DATE"
proof -
  have *: "0 \<le> fst (randint R 0 total_days s') \<and> fst (randint R 0 total_days s') < total_days"
    for s'
    using assms unfolding np_random_ok_def by (simp add: total_days_eq)
  have **: "START_DATE \<le> START_DATE + fst (randint R 0 total_days s')
      \<and> START_DATE + fst (randint R 0 total_days s') \<le> END_DATE" for s'
    using * [of s'] by (simp add: total_days_def)
  show ?thesis
    using ** [of s] ** [of "snd (rand R (snd (randint R 0 total_days s)))"]
    unfolding draw_date_def Let_def
    by (simp only: split_beta fst_conv snd_conv split: if_splits) auto
qed

lemma draw_dates_range:
  assumes "np_random_ok R"
  shows "length (fst (draw_dates R n s)) = n
         \<and> (\<forall>d \<in> set (fst (draw_dates R n s)). START_DATE \<le> d \<and> d \<le> END_DATE)"
proof (induction n arbitrary: s)
  case 0
  show ?case by simp
next
  case (Suc n)
  show ?case
    using Suc.IH [of "snd (draw_date R s)"] draw_date_range [OF assms, of s]
    by (simp add: split_beta Let_def)
qed

lemma digit_char_inj: "d < 10 \<Longrightarrow> e < 10 \<Longrightarrow> digit_char d = digit_char e \<Longrightarrow> d = e"
  unfolding digit_char_def
  by (subst (asm) nth_eq_iff_index_eq) simp_all

lemma str_nat_nonempty: "str_nat n \<noteq> []" "[] \<noteq> str_nat n"
  by (subst str_nat.simps, simp)+

lemma str_nat_inj: "str_nat n = str_nat m \<Longrightarrow> n = m"
proof (induction n arbitrary: m rule: str_nat.induct)
  case (1 n)
  show ?case
  proof (cases "n < 10")
    case True
    then have n: "str_nat n = [digit_char n]" by (subst str_nat.simps) simp
    show ?thesis
    proof (cases "m < 10")
      case True
      then have "str_nat m = [digit_char m]" by (subst str_nat.simps) simp
      with n "1.prems" have "digit_char n = digit_char m" by simp
      with \<open>n < 10\<close> \<open>m < 10\<close> show ?thesis by (rule digit_char_inj)
    next
      case False
      then have "str_nat m = str_nat (m div 10) @ [digit_char (m mod 10)]"
        by (subst str_nat.simps) simp
      with n "1.prems" show ?thesis by (simp add: str_nat_nonempty)
    qed
  next
    case False
    then have n: "str_nat n = str_nat (n div 10) @ [digit_char (n mod 10)]"
      by (subst str_nat.simps) simp
    show ?thesis
    proof (cases "m < 10")
      case True
      then have "str_nat m = [digit_char m]" by (subst str_nat.simps) simp
      with n "1.prems" show ?thesis by (simp add: str_nat_nonempty)
    next
      case m: False
      then have "str_nat m = str_nat (m div 10) @ [digit_char (m mod 10)]"
        by (subst str_nat.simps) simp
      with n "1.prems" have a: "str_nat (n div 10) = str_nat (m div 10)"
        and b: "digit_char (n mod 10) = digit_char (m mod 10)" by simp_all
      from "1.IH" [OF False a] have "n div 10 = m div 10" .
      moreover have "n mod 10 = m mod 10"
        using b by (intro digit_char_inj) simp_all
      ultimately show ?thesis by (metis div_mult_mod_eq)
    qed
  qed
qed

lemma order_ids_distinct: "distinct (map (\<lambda>j. ''ORD-'' @ str_nat (10000 + j)) [i..<k])"
  by (auto simp: distinct_map inj_on_def dest: str_nat_inj)

lemma START_DATE_eq: "START_DATE = 738156"
  by (simp add: START_DATE_def ymd2ord_def days_before_year_def
      days_before_month_def is_leap_def DAYS_IN_MONTH_def Let_def)

lemma counter_rng_ok: "np_random_ok counter_rng"
proof -
  have a: "lo \<le> lo + int (s * 397) mod (hi - lo) \<and> lo + int (s * 397) mod (hi - lo) < hi"
    if "lo < hi" for lo hi :: int and s :: nat
  proof -
    from that have "0 < hi - lo" by simp
    then have "0 \<le> int (s * 397) mod (hi - lo)" and "int (s * 397) mod (hi - lo) < hi - lo"
      by (rule pos_mod_sign, rule pos_mod_bound)
    then show ?thesis by simp
  qed
  have b: "(0::rat) \<le> of_nat (s mod 10) / 10 \<and> (of_nat (s mod 10) :: rat) / 10 < 1" for s :: nat
  proof -
    have "s mod 10 < 10" by simp
    then have "(of_nat (s mod 10) :: rat) < of_nat 10" by (simp only: of_nat_less_iff)
    then show ?thesis by simp
  qed
  have c: "lo \<le> lo + (hi - lo) * of_nat (s mod 4) / 4 \<and> lo + (hi - lo) * of_nat (s mod 4) / 4 \<le> hi"
    if "lo \<le> hi" for lo hi :: rat and s :: nat
  proof -
    have "s mod 4 < 4" by simp
    then have "(of_nat (s mod 4) :: rat) < of_nat 4" by (simp only: of_nat_less_iff)
    then have u: "(of_nat (s mod 4) :: rat) / 4 \<le> 1" and v: "(0::rat) \<le> of_nat (s mod 4) / 4"
      by simp_all
    from that have w: "0 \<le> hi - lo" by simp
    have "(hi - lo) * (of_nat (s mod 4) / 4) \<le> (hi - lo) * 1"
      using u w by (rule mult_left_mono)
    moreover have "0 \<le> (hi - lo) * (of_nat (s mod 4) / 4)"
      using w v by (rule mult_nonneg_nonneg)
    ultimately show ?thesis by simp
  qed
  show ?thesis
    unfolding np_random_ok_def counter_rng_def
    using a b c by simp
qed

lemma counter_draw_dates: "draw_dates counter_rng 2 8 = ([739142, 739238], 12)"
  by (simp add: numeral_2_eq_2 draw_date_def counter_rng_def total_days_eq START_DATE_eq
      month_of_def ord2ymd_def DAYS_IN_MONTH_def Let_def)

lemma counter_dates: "dates counter_rng 2 8 = [739142, 739238]"
  by (simp add: dates_def counter_draw_dates)

lemma counter_record_1: "gen_record counter_rng 0 739142 12 = Some (gen_row_1, 24)"
  by (simp add: gen_record_def choice_def counter_rng_def CATEGORIES_def REGIONS_def CITIES_def
      CHANNELS_def PAYMENT_def round_to_def round_half_even_def gen_row_1_def text_defs
      numeral_2_eq_2 [symmetric] strftime_bY_def quarter_text_def month_abbr_def)

lemma counter_record_2: "gen_record counter_rng (Suc 0) 739238 24 = Some (gen_row_2, 36)"
  by (simp add: gen_record_def choice_def counter_rng_def CATEGORIES_def REGIONS_def CITIES_def
      CHANNELS_def PAYMENT_def round_to_def round_half_even_def gen_row_2_def text_defs
      numeral_2_eq_2 [symmetric] strftime_bY_def quarter_text_def month_abbr_def)

lemma counter_records: "records counter_rng 2 8 = Some ([gen_row_1, gen_row_2], 36)"
  by (simp add: records_def counter_dates counter_draw_dates counter_record_1 counter_record_2)


lemma record_ok_nonneg:
  assumes "record_ok i d r"
  shows "0 \<le> Revenue r \<and> 0 \<le> Profit r"
proof -
  from assms obtain margin where price: "0 \<le> UnitPrice r"
    and qty: "Quantity r \<in> {1, 2, 3}"
    and disc: "Discount r \<in> {0, 5, 10, 15, 20, 25}"
    and rev: "Revenue r = round_to 2 (UnitPrice r * of_int (Quantity r)
                                       * (1 - of_int (Discount r) / 100))"
    and m: "15 / 100 \<le> margin"
    and prof: "Profit r = round_to 2 (Revenue r * margin)"
    unfolding record_ok_def by blast
  have "(0::rat) \<le> of_int (Quantity r)" using qty by auto
  moreover have "(0::rat) \<le> 1 - of_int (Discount r) / 100" using disc by auto
  ultimately have "0 \<le> UnitPrice r * of_int (Quantity r) * (1 - of_int (Discount r) / 100)"
    using price by simp
  then have r0: "0 \<le> Revenue r" unfolding rev by (rule round_to_nonneg)
  moreover have "0 \<le> margin" using m by simp
  then have "0 \<le> Revenue r * margin" using r0 by simp
  then have "0 \<le> Profit r" unfolding prof by (rule round_to_nonneg)
  ultimately show ?thesis by simp
qed

lemma records_all_ok:
  assumes "np_random_ok R"
  shows "\<exists>recs s'. records R n s = Some (recs, s')
           \<and> length (dates R n s) = n
           \<and> list_all2 (\<lambda>(j, d) r. record_ok j d r) (zip [0..<n] (dates R n s)) recs"
proof -
  have len: "length (dates R n s) = n"
    using draw_dates_range [OF assms, of n s] by (simp add: dates_def)
  from gen_records_ok [OF assms, of 0 "dates R n s" "snd (draw_dates R n s)"]
  show ?thesis by (simp add: records_def len)
qed

lemma list_all2_indexed:
  assumes "list_all2 (\<lambda>(j, d) r. P j d r) (zip js ds) rs" and "length js = length ds"
  shows "length rs = length ds"
    and "\<And>r. r \<in> set rs \<Longrightarrow> \<exists>j d. d \<in> set ds \<and> P j d r"
    and "\<And>k. k < length ds \<Longrightarrow> P (js ! k) (ds ! k) (rs ! k)"
proof -
  show len: "length rs = length ds"
    using list_all2_lengthD [OF assms(1)] assms(2) by simp
  show nth: "P (js ! k) (ds ! k) (rs ! k)" if "k < length ds" for k
    using list_all2_nthD [OF assms(1), of k] that assms(2) by simp
  show "\<exists>j d. d \<in> set ds \<and> P j d r" if "r \<in> set rs" for r
  proof -
    from that obtain k where k: "k < length rs" and r: "r = rs ! k"
      by (auto simp: in_set_conv_nth)
    have "ds ! k \<in> set ds" using k len by simp
    moreover have "P (js ! k) (ds ! k) r" using nth [of k] k len r by simp
    ultimately show ?thesis by blast
  qed
qed

text \<open>
  C8. With a generator that keeps numpy's documented ranges, the script returns (no
  dictionary lookup fails) exactly \<open>n\<close> records, and every record has non-negative revenue
  and profit, a city from the city list of its region and a product from the product list
  of its category. The identifiers are \<^verbatim>\<open>ORD-10000\<close>, \<^verbatim>\<open>ORD-10001\<close>, ... in row order (a
  counter from the offset 10000, so dense and order-preserving) and pairwise distinct. The
  rows carry the dates of the sorted date list, in its order, and each date lies between
  \<open>START_DATE\<close> and \<open>END_DATE\<close>.
\<close>

theorem generator_invariants:
  assumes "np_random_ok R"
  shows "\<exists>recs s'. records R n s = Some (recs, s')
           \<and> length recs = n
           \<and> (\<forall>r \<in> set recs.
                 0 \<le> Revenue r \<and> 0 \<le> Profit r
                 \<and> (\<exists>cities. map_of CITIES (Region r) = Some cities \<and> City r \<in> set cities)
                 \<and> (\<exists>info. map_of CATEGORIES (Category r) = Some info
                            \<and> Product r \<in> set (products info)))
           \<and> map OrderID recs = map (\<lambda>i. ''ORD-'' @ str_nat (10000 + i)) [0..<n]
           \<and> distinct (map OrderID recs)
           \<and> map Date recs = map strftime_Ymd (dates R n s)
           \<and> sorted (dates R n s)
           \<and> (\<forall>d \<in> set (dates R n s). START_DATE \<le> d \<and> d \<le> END_DATE)"
proof -
  from records_all_ok [OF assms, of n s] obtain recs s'
    where run: "records R n s = Some (recs, s')"
      and len: "length (dates R n s) = n"
      and all: "list_all2 (\<lambda>(j, d) r. record_ok j d r) (zip [0..<n] (dates R n s)) recs"
    by blast
  note ix = list_all2_indexed [OF all, unfolded len, simplified]
  have l: "length recs = n" by (rule ix(1))
  have inv: "0 \<le> Revenue r \<and> 0 \<le> Profit r
      \<and> (\<exists>cities. map_of CITIES (Region r) = Some cities \<and> City r \<in> set cities)
      \<and> (\<exists>info. map_of CATEGORIES (Category r) = Some info \<and> Product r \<in> set (products info))"
    if "r \<in> set recs" for r
  proof -
    from ix(2) [OF that] obtain j d where ok: "record_ok j d r" by blast
    then show ?thesis using record_ok_nonneg [OF ok] unfolding record_ok_def by blast
  qed
  have ids: "map OrderID recs = map (\<lambda>i. ''ORD-'' @ str_nat (10000 + i)) [0..<n]"
  proof (rule nth_equalityI)
    show "length (map OrderID recs) = length (map (\<lambda>i. ''ORD-'' @ str_nat (10000 + i)) [0..<n])"
      by (simp add: l)
    fix k
    assume "k < length (map OrderID recs)"
    then have k: "k < n" by (simp add: l)
    from ix(3) [OF k] k have "OrderID (recs ! k) = ''ORD-'' @ str_nat (10000 + k)"
      by (simp add: record_ok_def)
    then show "map OrderID recs ! k = map (\<lambda>i. ''ORD-'' @ str_nat (10000 + i)) [0..<n] ! k"
      using k by (simp add: l)
  qed
  have dts: "map Date recs = map strftime_Ymd (dates R n s)"
  proof (rule nth_equalityI)
    show "length (map Date recs) = length (map strftime_Ymd (dates R n s))"
      by (simp add: l len)
    fix k
    assume "k < length (map Date recs)"
    then have k: "k < n" by (simp add: l)
    from ix(3) [OF k] have "Date (recs ! k) = strftime_Ymd (dates R n s ! k)"
      by (simp add: record_ok_def)
    then show "map Date recs ! k = map strftime_Ymd (dates R n s) ! k"
      using k by (simp add: l len)
  qed
  have "distinct (map OrderID recs)"
    unfolding ids by (rule order_ids_distinct)
  moreover have "sorted (dates R n s)"
    by (simp add: dates_def)
  moreover have "\<forall>d \<in> set (dates R n s). START_DATE \<le> d \<and> d \<le> END_DATE"
    using draw_dates_range [OF assms, of n s] by (simp add: dates_def)
  ultimately show ?thesis
    using run l inv ids dts by blast
qed



theorem generator_invariants_witness:
  "np_random_ok counter_rng
   \<and> records counter_rng 2 8 = Some ([gen_row_1, gen_row_2], 36)
   \<and> dates counter_rng 2 8 = [739142, 739238]
   \<and> map OrderID [gen_row_1, gen_row_2] = [''ORD-10000'', ''ORD-10001'']
   \<and> distinct (map OrderID [gen_row_1, gen_row_2])
   \<and> map Date [gen_row_1, gen_row_2] = [''2024-09-13'', ''2024-12-18'']
   \<and> 0 \<le> Revenue gen_row_1 \<and> 0 \<le> Profit gen_row_2
   \<and> START_DATE \<le> 739142 \<and> 739238 \<le> END_DATE"
proof -
  have ok: "np_random_ok counter_rng" by (rule counter_rng_ok)
  from generator_invariants [OF ok, of 2 8]
  have "distinct (map OrderID [gen_row_1, gen_row_2])
      \<and> 0 \<le> Revenue gen_row_1 \<and> 0 \<le> Profit gen_row_2
      \<and> START_DATE \<le> 739142 \<and> 739238 \<le> END_DATE"
    unfolding counter_records counter_dates by (elim exE conjE) simp
  then show ?thesis
    using ok counter_records counter_dates by (simp add: gen_row_1_def gen_row_2_def)
qed


end
